theory Spec2Isabelle
  imports
    Complex_Main
    "HOL-Library.Multiset"
    "HOL-Library.Char_ord"
    "HOL-Library.List_Lexorder"
    "HOL-Library.Product_Lexorder"
begin

section \<open>MCA result processing: the grading pipeline of app.py\<close>

text \<open>
  The script loads one table of students, cleans the eleven subject columns, derives a
  grade and a grade point per subject, the SGPA, the pass/fail result and the dense
  rank, and finally builds the overall topper list. A row of the data frame is modelled
  as a record; the columns the script adds under computed names are finite maps from the
  subject code, so that a lookup of a column that is not there is a \<open>KeyError\<close>.
  Marks and SGPA values are modelled by the exact number they denote.
\<close>

subsection \<open>Static tables\<close>

definition subject_cols :: "int list" where
  "subject_cols = [101, 103, 105, 107, 109, 161, 163, 165, 167, 169, 171]"

definition CREDITS :: "int \<rightharpoonup> int" where
  "CREDITS = map_of
     [(101, 4), (103, 3), (105, 3), (107, 3), (109, 3),
      (161, 1), (163, 1), (165, 1), (167, 1), (169, 3), (171, 1)]"

subsection \<open>Grade and grade point\<close>

fun grade_and_point :: "real \<Rightarrow> string \<times> int" where
  "grade_and_point marks =
     (if marks \<ge> 90 then (''O'', 10)
      else if marks \<ge> 75 then (''A+'', 9)
      else if marks \<ge> 65 then (''A'', 8)
      else if marks \<ge> 55 then (''B+'', 7)
      else if marks \<ge> 50 then (''B'', 6)
      else if marks \<ge> 45 then (''C'', 5)
      else if marks \<ge> 40 then (''P'', 4)
      else (''F'', 0))"

text \<open>The eight rows of the grading scheme, as pairs.\<close>

definition grade_table :: "(string \<times> int) list" where
  "grade_table =
     [(''O'', 10), (''A+'', 9), (''A'', 8), (''B+'', 7),
      (''B'', 6), (''C'', 5), (''P'', 4), (''F'', 0)]"

subsection \<open>Cleaning the marks\<close>

text \<open>
  A cell of a subject column as loaded from the sheet: a number, a piece of text (such as
  the absence marker AB) or nothing. \<open>pd.to_numeric(..., errors="coerce")\<close> keeps a
  number, hands text to the library's number parser, here the parameter \<open>parse\<close>, and
  turns what does not parse and what is missing into NaN, here \<open>None\<close>;
  \<open>fillna(0)\<close> then replaces NaN by 0.
\<close>

datatype cell = Num real | Text string | Blank

datatype py_error = KeyError | ZeroDivisionError

definition to_numeric :: "(string \<Rightarrow> real option) \<Rightarrow> cell \<Rightarrow> real option" where
  "to_numeric parse c = (case c of Num v \<Rightarrow> Some v | Text s \<Rightarrow> parse s | Blank \<Rightarrow> None)"

definition fillna :: "real \<Rightarrow> real option \<Rightarrow> real" where
  "fillna v x = (case x of None \<Rightarrow> v | Some y \<Rightarrow> y)"

definition clean_cell :: "(string \<Rightarrow> real option) \<Rightarrow> cell \<Rightarrow> real" where
  "clean_cell parse c = fillna 0 (to_numeric parse c)"

text \<open>
  A row of the loaded table. The table is taken to have the eleven subject columns, so
  a row has a cell in each of them.
\<close>

record student =
  Roll_No :: int
  Name :: string
  cells :: "int \<Rightarrow> cell"

definition clean_marks :: "(string \<Rightarrow> real option) \<Rightarrow> (int \<Rightarrow> cell) \<Rightarrow> (int \<rightharpoonup> real)" where
  "clean_marks parse cs =
     fold (\<lambda>col df. df(col \<mapsto> clean_cell parse (cs col))) subject_cols Map.empty"

subsection \<open>Applying the grades\<close>

text \<open>
  The loop over the subject columns that adds the \<open>{col}_Grade\<close> and \<open>{col}_GP\<close>
  columns; reading a column that is not in the frame is a \<open>KeyError\<close>.
\<close>

fun apply_grades ::
  "(int \<rightharpoonup> real) \<Rightarrow> int list \<Rightarrow> (int \<rightharpoonup> string) \<times> (int \<rightharpoonup> int)
   \<Rightarrow> py_error + (int \<rightharpoonup> string) \<times> (int \<rightharpoonup> int)" where
  "apply_grades df [] acc = Inr acc"
| "apply_grades df (col # cols) (grade, gp) =
     (case df col of
        None \<Rightarrow> Inl KeyError
      | Some x \<Rightarrow>
          apply_grades df cols
            (grade(col \<mapsto> fst (grade_and_point x)), gp(col \<mapsto> snd (grade_and_point x))))"

subsection \<open>SGPA\<close>

text \<open>
  Python's \<open>round(x, 2)\<close> rounds to the nearest multiple of 0.01 and, exactly half way
  between two of them, to the one with the even last digit.
\<close>

definition round_half_even :: "real \<Rightarrow> int" where
  "round_half_even y =
     (let f = \<lfloor>y\<rfloor>; d = y - of_int f
      in if d < 1 / 2 then f else if 1 / 2 < d then f + 1
         else if even f then f else f + 1)"

definition py_round2 :: "real \<Rightarrow> real" where
  "py_round2 x = of_int (round_half_even (x * 100)) / 100"

text \<open>The loop of \<open>calculate_sgpa\<close> over the subjects, on the two running totals.\<close>

fun sgpa_loop :: "(int \<rightharpoonup> int) \<Rightarrow> int list \<Rightarrow> int \<times> int \<Rightarrow> py_error + int \<times> int" where
  "sgpa_loop row [] acc = Inr acc"
| "sgpa_loop row (sub # subs) (total_ci_gi, total_credits) =
     (case CREDITS sub of
        None \<Rightarrow> Inl KeyError
      | Some credit \<Rightarrow>
          (case row sub of
             None \<Rightarrow> Inl KeyError
           | Some gp \<Rightarrow> sgpa_loop row subs (total_ci_gi + credit * gp, total_credits + credit)))"

definition calculate_sgpa :: "(int \<rightharpoonup> int) \<Rightarrow> py_error + real" where
  "calculate_sgpa row =
     (case sgpa_loop row subject_cols (0, 0) of
        Inl e \<Rightarrow> Inl e
      | Inr (total_ci_gi, total_credits) \<Rightarrow>
          if total_credits = 0 then Inl ZeroDivisionError
          else Inr (py_round2 (of_int total_ci_gi / of_int total_credits)))"

subsection \<open>Pass or fail\<close>

definition pass_fail :: "(int \<rightharpoonup> int) \<Rightarrow> py_error + string" where
  "pass_fail gp =
     (case those (map gp subject_cols) of
        None \<Rightarrow> Inl KeyError
      | Some gps \<Rightarrow> Inr (let x = Min (set gps) in if x \<ge> 4 then ''PASS'' else ''FAIL''))"

subsection \<open>The per-row columns\<close>

record scored = student +
  marks :: "int \<rightharpoonup> real"
  Grade :: "int \<rightharpoonup> string"
  GP :: "int \<rightharpoonup> int"
  SGPA :: real
  CGPA :: real
  Result :: string

definition process_row :: "(string \<Rightarrow> real option) \<Rightarrow> student \<Rightarrow> py_error + scored" where
  "process_row parse r =
     (let df = clean_marks parse (cells r) in
      case apply_grades df subject_cols (Map.empty, Map.empty) of
        Inl e \<Rightarrow> Inl e
      | Inr (grade, gp) \<Rightarrow>
          (case calculate_sgpa gp of
             Inl e \<Rightarrow> Inl e
           | Inr s \<Rightarrow>
               (case pass_fail gp of
                  Inl e \<Rightarrow> Inl e
                | Inr res \<Rightarrow>
                    Inr (student.extend r
                      (scored.fields df grade gp s s res)))))"

fun process_rows :: "(string \<Rightarrow> real option) \<Rightarrow> student list \<Rightarrow> py_error + scored list" where
  "process_rows parse [] = Inr []"
| "process_rows parse (r # rs) =
     (case process_row parse r of
        Inl e \<Rightarrow> Inl e
      | Inr x \<Rightarrow>
          (case process_rows parse rs of
             Inl e \<Rightarrow> Inl e
           | Inr xs \<Rightarrow> Inr (x # xs)))"

subsection \<open>Rank\<close>

text \<open>
  \<open>rank(ascending=False, method="dense")\<close> of the library: the distinct values in
  descending order are numbered 1, 2, 3, ... and every entry gets the number of its value.
\<close>

fun position :: "'a \<Rightarrow> 'a list \<Rightarrow> nat" where
  "position x [] = 0"
| "position x (y # ys) = (if x = y then 0 else Suc (position x ys))"

definition dense_rank :: "real list \<Rightarrow> nat list" where
  "dense_rank xs = (let ds = rev (sort (remdups xs)) in map (\<lambda>x. Suc (position x ds)) xs)"

record ranked = scored +
  Rank :: nat

definition add_rank :: "scored list \<Rightarrow> ranked list" where
  "add_rank df =
     map2 (\<lambda>r k. scored.extend r (ranked.fields k)) df (dense_rank (map SGPA df))"

definition process_df :: "(string \<Rightarrow> real option) \<Rightarrow> student list \<Rightarrow> py_error + ranked list" where
  "process_df parse raw =
     (case process_rows parse raw of Inl e \<Rightarrow> Inl e | Inr df \<Rightarrow> Inr (add_rank df))"

subsection \<open>Overall topper list\<close>

text \<open>
  \<open>sort_values(by=["SGPA", "Name"], ascending=[False, True])\<close> keeps rows with equal
  keys in their order in the frame; after \<open>reset_index\<close> the index counts from 0.
\<close>

record topper = ranked +
  Overall_Rank :: nat

definition sort_key_of :: "'a ranked_scheme \<Rightarrow> real \<times> string" where
  "sort_key_of r = (- SGPA r, Name r)"

definition topper_df :: "ranked list \<Rightarrow> topper list" where
  "topper_df df =
     (let sorted_df = sort_key sort_key_of df
      in map2 (\<lambda>index r. ranked.extend r (topper.fields (index + 1)))
           [0..<length sorted_df] sorted_df)"

text \<open>The cleaned mark and the grade point of one subject of a loaded row.\<close>

abbreviation mark_of :: "(string \<Rightarrow> real option) \<Rightarrow> student \<Rightarrow> int \<Rightarrow> real" where
  "mark_of parse r col \<equiv> clean_cell parse (cells r col)"

abbreviation gp_of :: "(string \<Rightarrow> real option) \<Rightarrow> student \<Rightarrow> int \<Rightarrow> int" where
  "gp_of parse r col \<equiv> snd (grade_and_point (mark_of parse r col))"

text \<open>The row that \<open>process_row\<close> is shown below to return, column by column.\<close>

definition scored_row :: "(string \<Rightarrow> real option) \<Rightarrow> student \<Rightarrow> scored" where
  "scored_row parse r =
     student.extend r (scored.fields
       (\<lambda>c. if c \<in> set subject_cols then Some (mark_of parse r c) else None)
       (\<lambda>c. if c \<in> set subject_cols then Some (fst (grade_and_point (mark_of parse r c))) else None)
       (\<lambda>c. if c \<in> set subject_cols then Some (gp_of parse r c) else None)
       (py_round2 (of_int (\<Sum>s\<leftarrow>subject_cols. the (CREDITS s) * gp_of parse r s) / 24))
       (py_round2 (of_int (\<Sum>s\<leftarrow>subject_cols. the (CREDITS s) * gp_of parse r s) / 24))
       (if Min (set (map (gp_of parse r) subject_cols)) \<ge> 4 then ''PASS'' else ''FAIL''))"

subsection \<open>Sample inputs\<close>

text \<open>
  The grade points of a student with 90 in subject 101 and exactly 40 in every other
  subject.
\<close>

definition sample_gp :: "int \<rightharpoonup> int" where
  "sample_gp = map_of
     [(101, 10), (103, 4), (105, 4), (107, 4), (109, 4),
      (161, 4), (163, 4), (165, 4), (167, 4), (169, 4), (171, 4)]"

text \<open>
  Three loaded rows: 90 in subject 101 and 40 elsewhere; 95 everywhere; and 95 everywhere
  but marked absent in subject 171.
\<close>

definition asha :: student where
  "asha = \<lparr>Roll_No = 1, Name = ''Asha'', cells = (\<lambda>col. if col = 101 then Num 90 else Num 40)\<rparr>"

definition bina :: student where
  "bina = \<lparr>Roll_No = 2, Name = ''Bina'', cells = (\<lambda>col. Num 95)\<rparr>"

definition chetan :: student where
  "chetan = \<lparr>Roll_No = 3, Name = ''Chetan'',
     cells = (\<lambda>col. if col = 171 then Text ''AB'' else Num 95)\<rparr>"

text \<open>
  The grade points of a student who fails everything but the three-credit subject 169,
  passed with grade C: the weighted mean 15 / 24 = 0.625 lies half way between 0.62 and
  0.63.
\<close>

definition tie_gp :: "int \<rightharpoonup> int" where
  "tie_gp = map_of
     [(101, 0), (103, 0), (105, 0), (107, 0), (109, 0),
      (161, 0), (163, 0), (165, 0), (167, 0), (169, 5), (171, 0)]"

text \<open>A cohort of four: the three rows above and a fourth with the marks of the first.\<close>

definition cohort :: "student list" where
  "cohort = [asha, bina, chetan, asha\<lparr>Roll_No := 4, Name := ''Dev''\<rparr>]"

text \<open>A text parser that reads the one string 85 and nothing else.\<close>

definition parse_85 :: "string \<Rightarrow> real option" where
  "parse_85 = [''85'' \<mapsto> 85]"

text \<open>
  Two students with the same name and the same marks, and the table the pipeline returns
  for them.
\<close>

definition twins :: "student list" where
  "twins = [asha, asha\<lparr>Roll_No := 5\<rparr>]"

definition twins_ranked :: "ranked list" where
  "twins_ranked = (case process_df parse_85 twins of Inl e \<Rightarrow> [] | Inr t \<Rightarrow> t)"

section \<open>Properties of the grade assignment\<close>

declare grade_and_point.simps [simp del]

lemma grade_and_point_cases:
  "grade_and_point m = (''O'', 10) \<or> grade_and_point m = (''A+'', 9)
   \<or> grade_and_point m = (''A'', 8) \<or> grade_and_point m = (''B+'', 7)
   \<or> grade_and_point m = (''B'', 6) \<or> grade_and_point m = (''C'', 5)
   \<or> grade_and_point m = (''P'', 4) \<or> grade_and_point m = (''F'', 0)"
  by (simp add: grade_and_point.simps)

lemma gp_range: "snd (grade_and_point m) \<in> {0, 4, 5, 6, 7, 8, 9, 10}"
  by (simp add: grade_and_point.simps)

lemma gp_le_10: "snd (grade_and_point m) \<le> 10"
  by (simp add: grade_and_point.simps)

lemma gp_ge_0: "0 \<le> snd (grade_and_point m)"
  by (simp add: grade_and_point.simps)

lemma gp_eq_10_iff: "snd (grade_and_point m) = 10 \<longleftrightarrow> 90 \<le> m"
  by (simp add: grade_and_point.simps)

lemma gp_lt_4_iff_0: "snd (grade_and_point m) < 4 \<longleftrightarrow> snd (grade_and_point m) = 0"
  by (simp add: grade_and_point.simps)

text \<open>
  Claim C2. The grade assignment is total and is the first matching band of the
  descending threshold table, each band closed at its lower edge: 90 and above is
  (O, 10), from 75 up to 90 is (A+, 9), from 65 is (A, 8), from 55 is (B+, 7), from 50
  is (B, 6), from 45 is (C, 5), from 40 is (P, 4), and anything below 40 is (F, 0).
  At the edges: 90 gives (O, 10), 40 gives (P, 4) and 39.9 gives (F, 0).
\<close>

theorem grade_and_point_bands:
  "(90 \<le> m \<longrightarrow> grade_and_point m = (''O'', 10))
   \<and> (75 \<le> m \<and> m < 90 \<longrightarrow> grade_and_point m = (''A+'', 9))
   \<and> (65 \<le> m \<and> m < 75 \<longrightarrow> grade_and_point m = (''A'', 8))
   \<and> (55 \<le> m \<and> m < 65 \<longrightarrow> grade_and_point m = (''B+'', 7))
   \<and> (50 \<le> m \<and> m < 55 \<longrightarrow> grade_and_point m = (''B'', 6))
   \<and> (45 \<le> m \<and> m < 50 \<longrightarrow> grade_and_point m = (''C'', 5))
   \<and> (40 \<le> m \<and> m < 45 \<longrightarrow> grade_and_point m = (''P'', 4))
   \<and> (m < 40 \<longrightarrow> grade_and_point m = (''F'', 0))
   \<and> grade_and_point 90 = (''O'', 10)
   \<and> grade_and_point 40 = (''P'', 4)
   \<and> grade_and_point (399 / 10) = (''F'', 0)"
  by (simp add: grade_and_point.simps)

theorem grade_and_point_bands_witness:
  "grade_and_point 95 = (''O'', 10) \<and> grade_and_point 80 = (''A+'', 9)
   \<and> grade_and_point 65 = (''A'', 8) \<and> grade_and_point (129 / 2) = (''B+'', 7)
   \<and> grade_and_point 50 = (''B'', 6) \<and> grade_and_point 49 = (''C'', 5)
   \<and> grade_and_point 44 = (''P'', 4) \<and> grade_and_point (- 3) = (''F'', 0)"
  using grade_and_point_bands [of 95] grade_and_point_bands [of 80]
    grade_and_point_bands [of 65] grade_and_point_bands [of "129 / 2"]
    grade_and_point_bands [of 50] grade_and_point_bands [of 49]
    grade_and_point_bands [of 44] grade_and_point_bands [of "- 3"]
  by (simp add: grade_and_point.simps)

text \<open>
  Claim C8. The grade point is monotone in the marks: lower marks never earn a higher
  grade point.
\<close>

theorem grade_point_mono:
  "m1 \<le> m2 \<Longrightarrow> snd (grade_and_point m1) \<le> snd (grade_and_point m2)"
  by (simp add: grade_and_point.simps)

theorem grade_point_mono_witness:
  "(44::real) \<le> 76 \<and> snd (grade_and_point 44) \<le> snd (grade_and_point 76)
   \<and> snd (grade_and_point 44) = 4 \<and> snd (grade_and_point 76) = 9"
  using grade_point_mono [of 44 76] by (simp add: grade_and_point.simps)

text \<open>
  Claim C9. Whatever the marks, the returned pair is one of the eight rows of the
  grading scheme; grade and grade point determine each other, so the grade is F exactly
  when the grade point is 0, and no grade point lies in 1..3.
\<close>

theorem grade_and_point_in_table:
  "grade_and_point m \<in> set grade_table
   \<and> set grade_table = range grade_and_point
   \<and> inj_on fst (set grade_table) \<and> inj_on snd (set grade_table)
   \<and> (fst (grade_and_point m) = fst (grade_and_point m') \<longleftrightarrow>
        snd (grade_and_point m) = snd (grade_and_point m'))
   \<and> (fst (grade_and_point m) = ''F'' \<longleftrightarrow> snd (grade_and_point m) = 0)
   \<and> snd (grade_and_point m) \<notin> {1, 2, 3}"
proof -
  have in_tab: "\<And>x. grade_and_point x \<in> set grade_table"
    by (simp add: grade_table_def grade_and_point.simps)
  have "set grade_table \<subseteq> range grade_and_point"
  proof -
    have "grade_and_point 90 \<in> range grade_and_point"
      "grade_and_point 75 \<in> range grade_and_point"
      "grade_and_point 65 \<in> range grade_and_point"
      "grade_and_point 55 \<in> range grade_and_point"
      "grade_and_point 50 \<in> range grade_and_point"
      "grade_and_point 45 \<in> range grade_and_point"
      "grade_and_point 40 \<in> range grade_and_point"
      "grade_and_point 0 \<in> range grade_and_point"
      by (rule rangeI)+
    then show ?thesis
      by (simp add: grade_table_def grade_and_point.simps)
  qed
  moreover have "range grade_and_point \<subseteq> set grade_table"
    using in_tab by blast
  ultimately have rng: "set grade_table = range grade_and_point"
    by blast
  have inj1: "inj_on fst (set grade_table)"
    by (simp add: grade_table_def)
  have inj2: "inj_on snd (set grade_table)"
    by (simp add: grade_table_def)
  have both: "fst (grade_and_point m) = fst (grade_and_point m') \<longleftrightarrow>
        snd (grade_and_point m) = snd (grade_and_point m')"
    using inj_onD [OF inj1 _ in_tab in_tab] inj_onD [OF inj2 _ in_tab in_tab]
    by metis
  have f0: "fst (grade_and_point m) = ''F'' \<longleftrightarrow> snd (grade_and_point m) = 0"
    by (simp add: grade_and_point.simps)
  have no123: "snd (grade_and_point m) \<notin> {1, 2, 3}"
    by (simp add: grade_and_point.simps)
  from in_tab rng inj1 inj2 both f0 no123 show ?thesis
    by blast
qed

section \<open>Cleaning never rejects\<close>

lemma fold_upd_closed:
  "fold (\<lambda>col df. df(col \<mapsto> f col)) cols m = (\<lambda>c. if c \<in> set cols then Some (f c) else m c)"
  by (induction cols arbitrary: m) (auto simp: fun_eq_iff)

lemma clean_marks_closed:
  "clean_marks parse cs =
     (\<lambda>c. if c \<in> set subject_cols then Some (clean_cell parse (cs c)) else None)"
  unfolding clean_marks_def by (rule fold_upd_closed)

text \<open>
  Claim C5, as the code has it. Cleaning maps every cell of a subject column to a number
  and cannot fail: a number keeps its value whatever it is, also outside 0..100; an
  empty cell becomes 0; text becomes 0 when the parser rejects it and the parsed number
  otherwise; each cell is cleaned on its own.
\<close>

theorem clean_cell_coerces:
  "clean_cell parse (Num v) = v
   \<and> clean_cell parse Blank = 0
   \<and> (parse s = None \<longrightarrow> clean_cell parse (Text s) = 0)
   \<and> (parse s = Some v \<longrightarrow> clean_cell parse (Text s) = v)
   \<and> (col \<in> set subject_cols \<longrightarrow> clean_marks parse cs col = Some (clean_cell parse (cs col)))"
  by (simp add: clean_cell_def to_numeric_def fillna_def clean_marks_closed)

theorem clean_cell_coerces_witness:
  "parse_85 ''AB'' = None \<and> clean_cell parse_85 (Text ''AB'') = 0
   \<and> parse_85 ''85'' = Some 85 \<and> clean_cell parse_85 (Text ''85'') = 85
   \<and> 101 \<in> set subject_cols
   \<and> clean_marks parse_85 (\<lambda>col. Text ''AB'') 101 = Some 0"
  using clean_cell_coerces [of parse_85 85 "''AB''" 101 "\<lambda>col. Text ''AB''"]
    clean_cell_coerces [of parse_85 85 "''85''" 101 "\<lambda>col. Text ''AB''"]
  by (simp add: parse_85_def subject_cols_def)

text \<open>
  The claim as written also sends a number outside 0..100 to 0. The code has no range
  check: 150 stays 150 and is then graded O.
\<close>

theorem clean_cell_out_of_range:
  "clean_cell parse_85 (Num 150) = 150 \<and> clean_cell parse_85 (Num 150) \<noteq> 0
   \<and> clean_cell parse_85 (Num (- 5)) = - 5
   \<and> grade_and_point (clean_cell parse_85 (Num 150)) = (''O'', 10)"
  by (simp add: clean_cell_def to_numeric_def fillna_def grade_and_point.simps)

section \<open>SGPA\<close>

lemma apply_grades_closed:
  "\<forall>c\<in>set cols. df c \<noteq> None \<Longrightarrow>
   apply_grades df cols (g, p) =
     Inr (\<lambda>c. if c \<in> set cols then Some (fst (grade_and_point (the (df c)))) else g c,
          \<lambda>c. if c \<in> set cols then Some (snd (grade_and_point (the (df c)))) else p c)"
  by (induction cols arbitrary: g p) (auto simp: fun_eq_iff)

lemma sgpa_loop_closed:
  "\<forall>s\<in>set subs. CREDITS s \<noteq> None \<and> row s \<noteq> None \<Longrightarrow>
   sgpa_loop row subs (t, n) =
     Inr (t + (\<Sum>s\<leftarrow>subs. the (CREDITS s) * the (row s)), n + (\<Sum>s\<leftarrow>subs. the (CREDITS s)))"
  by (induction subs arbitrary: t n) (auto simp: algebra_simps)

lemma CREDITS_dom: "dom CREDITS = set subject_cols"
  by (auto simp: CREDITS_def subject_cols_def split: if_splits)

lemma credits_total: "(\<Sum>s\<leftarrow>subject_cols. the (CREDITS s)) = 24"
  by (simp add: CREDITS_def subject_cols_def)

lemma calculate_sgpa_closed:
  assumes "set subject_cols \<subseteq> dom row"
  shows "calculate_sgpa row =
     Inr (py_round2 (of_int (\<Sum>s\<leftarrow>subject_cols. the (CREDITS s) * the (row s)) / 24))"
proof -
  have "\<forall>s\<in>set subject_cols. CREDITS s \<noteq> None \<and> row s \<noteq> None"
    using assms CREDITS_dom by blast
  then have "sgpa_loop row subject_cols (0, 0) =
     Inr (0 + (\<Sum>s\<leftarrow>subject_cols. the (CREDITS s) * the (row s)),
          0 + (\<Sum>s\<leftarrow>subject_cols. the (CREDITS s)))"
    by (rule sgpa_loop_closed)
  then show ?thesis
    by (simp add: calculate_sgpa_def credits_total)
qed

lemma those_map_Some:
  "\<forall>x\<in>set xs. f x \<noteq> None \<Longrightarrow> those (map f xs) = Some (map (\<lambda>x. the (f x)) xs)"
  by (induction xs) auto

lemma pass_fail_closed:
  assumes "set subject_cols \<subseteq> dom gp"
  shows "pass_fail gp =
     Inr (if Min (set (map (\<lambda>s. the (gp s)) subject_cols)) \<ge> 4 then ''PASS'' else ''FAIL'')"
proof -
  have "\<forall>s\<in>set subject_cols. gp s \<noteq> None" using assms by blast
  then have "those (map gp subject_cols) = Some (map (\<lambda>s. the (gp s)) subject_cols)"
    by (rule those_map_Some)
  then show ?thesis by (simp add: pass_fail_def Let_def)
qed

text \<open>The row computation never fails, and its columns in closed form.\<close>

lemma process_row_closed: "process_row parse r = Inr (scored_row parse r)"
proof -
  let ?df = "clean_marks parse (cells r)"
  let ?G = "\<lambda>c. if c \<in> set subject_cols then Some (fst (grade_and_point (mark_of parse r c))) else None"
  let ?P = "\<lambda>c. if c \<in> set subject_cols then Some (gp_of parse r c) else None"
  have df: "?df = (\<lambda>c. if c \<in> set subject_cols then Some (mark_of parse r c) else None)"
    by (rule clean_marks_closed)
  have "\<forall>c\<in>set subject_cols. ?df c \<noteq> None" by (simp add: df)
  from apply_grades_closed [OF this, of Map.empty Map.empty]
  have ag: "apply_grades ?df subject_cols (Map.empty, Map.empty) = Inr (?G, ?P)"
    by (auto simp: df fun_eq_iff)
  have dom: "set subject_cols \<subseteq> dom ?P" by (auto simp: dom_def)
  have s1: "(\<Sum>s\<leftarrow>subject_cols. the (CREDITS s) * the (?P s)) = (\<Sum>s\<leftarrow>subject_cols. the (CREDITS s) * gp_of parse r s)"
    by (rule arg_cong [where f = sum_list]) simp
  have s2: "map (\<lambda>s. the (?P s)) subject_cols = map (gp_of parse r) subject_cols"
    by simp
  show ?thesis
    unfolding process_row_def Let_def ag scored_row_def
    by (simp only: calculate_sgpa_closed [OF dom] pass_fail_closed [OF dom] s1 s2 df
        sum.case prod.case)
qed

lemma scored_row_sel:
  "marks (scored_row parse r) =
     (\<lambda>c. if c \<in> set subject_cols then Some (mark_of parse r c) else None)"
  "Grade (scored_row parse r) =
     (\<lambda>c. if c \<in> set subject_cols then Some (fst (grade_and_point (mark_of parse r c))) else None)"
  "GP (scored_row parse r) =
     (\<lambda>c. if c \<in> set subject_cols then Some (gp_of parse r c) else None)"
  "SGPA (scored_row parse r) =
     py_round2 (of_int (\<Sum>s\<leftarrow>subject_cols. the (CREDITS s) * gp_of parse r s) / 24)"
  "CGPA (scored_row parse r) = SGPA (scored_row parse r)"
  "Result (scored_row parse r) =
     (if Min (set (map (gp_of parse r) subject_cols)) \<ge> 4 then ''PASS'' else ''FAIL'')"
  "Name (scored_row parse r) = Name r"
  "Roll_No (scored_row parse r) = Roll_No r"
  "cells (scored_row parse r) = cells r"
  by (simp_all add: scored_row_def student.defs scored.defs)

lemma rhe_of_int: "round_half_even (of_int k) = k"
  by (simp add: round_half_even_def)

lemma rhe_floor_le: "\<lfloor>y\<rfloor> \<le> round_half_even y"
  by (simp add: round_half_even_def Let_def)

lemma rhe_le_ceiling: "round_half_even y \<le> \<lceil>y\<rceil>"
  unfolding round_half_even_def Let_def by (auto simp: ceiling_altdef)

lemma rhe_near: "\<bar>of_int (round_half_even y) - y\<bar> \<le> 1 / 2"
  unfolding round_half_even_def Let_def by (auto simp: abs_le_iff)

lemma py_round2_bounds:
  assumes "0 \<le> n" "n \<le> 240"
  shows "0 \<le> py_round2 (of_int n / 24)" "py_round2 (of_int n / 24) \<le> 10"
    "py_round2 (of_int n / 24) = 10 \<longleftrightarrow> n = 240"
proof -
  let ?y = "of_int n / 24 * 100 :: real"
  have y0: "0 \<le> ?y" using assms by simp
  have "\<lfloor>?y\<rfloor> \<le> round_half_even ?y" by (rule rhe_floor_le)
  moreover have "0 \<le> \<lfloor>?y\<rfloor>" using y0 by simp
  ultimately have "0 \<le> round_half_even ?y" by linarith
  then show "0 \<le> py_round2 (of_int n / 24)"
    by (simp add: py_round2_def)
  have y1: "?y \<le> 1000" using assms by simp
  have "round_half_even ?y \<le> \<lceil>?y\<rceil>" by (rule rhe_le_ceiling)
  moreover have "\<lceil>?y\<rceil> \<le> 1000" using y1 by (simp add: ceiling_le_iff)
  ultimately have le: "round_half_even ?y \<le> 1000" by linarith
  then show "py_round2 (of_int n / 24) \<le> 10"
    by (simp add: py_round2_def)
  show "py_round2 (of_int n / 24) = 10 \<longleftrightarrow> n = 240"
  proof
    assume eq: "py_round2 (of_int n / 24) = 10"
    then have r: "round_half_even ?y = 1000"
      by (simp add: py_round2_def)
    have "of_int (round_half_even ?y) - ?y \<le> 1 / 2"
      using rhe_near [of ?y] by linarith
    then have "1000 - ?y \<le> 1 / 2" by (simp only: r of_int_numeral)
    then have "(239 :: real) < of_int n" by simp
    then have "239 < n" by linarith
    with assms show "n = 240" by simp
  next
    assume "n = 240"
    then have "?y = of_int 1000" by simp
    then have "round_half_even ?y = 1000" by (simp only: rhe_of_int)
    then show "py_round2 (of_int n / 24) = 10" by (simp add: py_round2_def)
  qed
qed

lemma weighted_total_bounds:
  fixes g :: "int \<Rightarrow> int"
  assumes "\<And>s. 0 \<le> g s \<and> g s \<le> 10"
  shows "0 \<le> (\<Sum>s\<leftarrow>subject_cols. the (CREDITS s) * g s)"
    "(\<Sum>s\<leftarrow>subject_cols. the (CREDITS s) * g s) \<le> 240"
    "(\<Sum>s\<leftarrow>subject_cols. the (CREDITS s) * g s) = 240 \<longleftrightarrow> (\<forall>s\<in>set subject_cols. g s = 10)"
proof -
  have b: "0 \<le> g 101" "g 101 \<le> 10" "0 \<le> g 103" "g 103 \<le> 10" "0 \<le> g 105" "g 105 \<le> 10"
    "0 \<le> g 107" "g 107 \<le> 10" "0 \<le> g 109" "g 109 \<le> 10" "0 \<le> g 161" "g 161 \<le> 10"
    "0 \<le> g 163" "g 163 \<le> 10" "0 \<le> g 165" "g 165 \<le> 10" "0 \<le> g 167" "g 167 \<le> 10"
    "0 \<le> g 169" "g 169 \<le> 10" "0 \<le> g 171" "g 171 \<le> 10"
    using assms by simp_all
  have e: "(\<Sum>s\<leftarrow>subject_cols. the (CREDITS s) * g s) =
     4 * g 101 + 3 * g 103 + 3 * g 105 + 3 * g 107 + 3 * g 109
     + g 161 + g 163 + g 165 + g 167 + 3 * g 169 + g 171"
    by (simp add: subject_cols_def CREDITS_def)
  show "0 \<le> (\<Sum>s\<leftarrow>subject_cols. the (CREDITS s) * g s)"
    unfolding e using b by linarith
  show "(\<Sum>s\<leftarrow>subject_cols. the (CREDITS s) * g s) \<le> 240"
    unfolding e using b by linarith
  have a: "(\<forall>s\<in>set subject_cols. g s = 10) \<longleftrightarrow>
    g 101 = 10 \<and> g 103 = 10 \<and> g 105 = 10 \<and> g 107 = 10 \<and> g 109 = 10 \<and> g 161 = 10
    \<and> g 163 = 10 \<and> g 165 = 10 \<and> g 167 = 10 \<and> g 169 = 10 \<and> g 171 = 10"
    by (simp add: subject_cols_def)
  show "(\<Sum>s\<leftarrow>subject_cols. the (CREDITS s) * g s) = 240 \<longleftrightarrow> (\<forall>s\<in>set subject_cols. g s = 10)"
    unfolding e a using b by linarith
qed

text \<open>
  Claim C7. Every row the pipeline produces has an SGPA between 0 and 10, and the SGPA is
  10 exactly when the cleaned mark of each of the eleven subjects is at least 90.
\<close>

theorem sgpa_range:
  "\<exists>s. process_row parse r = Inr s
     \<and> 0 \<le> SGPA s \<and> SGPA s \<le> 10
     \<and> (\<forall>sub\<in>set subject_cols. marks s sub = Some (mark_of parse r sub))
     \<and> (SGPA s = 10 \<longleftrightarrow> (\<forall>sub\<in>set subject_cols. 90 \<le> mark_of parse r sub))"
proof -
  let ?n = "\<Sum>s\<leftarrow>subject_cols. the (CREDITS s) * gp_of parse r s"
  have g: "\<And>s. 0 \<le> gp_of parse r s \<and> gp_of parse r s \<le> 10"
    by (simp add: gp_ge_0 gp_le_10)
  note wb = weighted_total_bounds [of "gp_of parse r", OF g]
  note rb = py_round2_bounds [OF wb(1) wb(2)]
  have "py_round2 (of_int ?n / 24) = 10 \<longleftrightarrow> (\<forall>sub\<in>set subject_cols. 90 \<le> mark_of parse r sub)"
    unfolding rb(3) wb(3) by (simp add: gp_eq_10_iff)
  with rb(1) rb(2) show ?thesis
    unfolding process_row_closed by (simp add: scored_row_sel)
qed

theorem sgpa_range_witness:
  "(\<exists>s. process_row parse_85 bina = Inr s \<and> SGPA s = 10)
   \<and> (\<exists>s. process_row parse_85 chetan = Inr s \<and> SGPA s < 10 \<and> 0 \<le> SGPA s
          \<and> marks s 171 = Some 0)"
proof -
  have b: "\<forall>sub\<in>set subject_cols. 90 \<le> mark_of parse_85 bina sub"
    by (simp add: bina_def clean_cell_def to_numeric_def fillna_def)
  have c: "\<not> (\<forall>sub\<in>set subject_cols. 90 \<le> mark_of parse_85 chetan sub)"
    "mark_of parse_85 chetan 171 = 0" "171 \<in> set subject_cols"
    by (simp_all add: chetan_def clean_cell_def to_numeric_def fillna_def parse_85_def
        subject_cols_def)
  from sgpa_range [of parse_85 bina] b have 1: "\<exists>s. process_row parse_85 bina = Inr s \<and> SGPA s = 10"
    by blast
  from sgpa_range [of parse_85 chetan] obtain s where s: "process_row parse_85 chetan = Inr s"
    "0 \<le> SGPA s" "SGPA s \<le> 10" "\<forall>sub\<in>set subject_cols. marks s sub = Some (mark_of parse_85 chetan sub)"
    "SGPA s = 10 \<longleftrightarrow> (\<forall>sub\<in>set subject_cols. 90 \<le> mark_of parse_85 chetan sub)"
    by blast
  from s(3) s(5) c(1) have "SGPA s < 10" by linarith
  moreover from s(4) c(2) c(3) have "marks s 171 = Some 0" by auto
  ultimately have 2: "\<exists>s. process_row parse_85 chetan = Inr s \<and> SGPA s < 10 \<and> 0 \<le> SGPA s
          \<and> marks s 171 = Some 0"
    using s(1) s(2) by blast
  from 1 2 show ?thesis by blast
qed

text \<open>
  Claim C1. For a row that has the eleven grade point columns, the SGPA is the sum of
  credit times grade point over the eleven subjects, divided by the sum of the credits
  and rounded to two decimals; the divisor is 24, the sum of the credit table, and not
  zero, so the division is defined; this is the SGPA (and CGPA) of every row of the
  pipeline.
\<close>

theorem calculate_sgpa_formula:
  "(set subject_cols \<subseteq> dom row \<longrightarrow>
      calculate_sgpa row =
        Inr (py_round2 (of_int (\<Sum>sub\<leftarrow>subject_cols. the (CREDITS sub) * the (row sub))
                        / of_int (\<Sum>sub\<leftarrow>subject_cols. the (CREDITS sub)))))
   \<and> (\<Sum>sub\<leftarrow>subject_cols. the (CREDITS sub)) = 24
   \<and> (\<Sum>sub\<leftarrow>subject_cols. the (CREDITS sub)) \<noteq> 0
   \<and> length subject_cols = 11 \<and> distinct subject_cols \<and> dom CREDITS = set subject_cols
   \<and> (\<exists>s. process_row parse r = Inr s \<and> set subject_cols \<subseteq> dom (GP s)
          \<and> calculate_sgpa (GP s) = Inr (SGPA s) \<and> CGPA s = SGPA s)"
proof -
  have 1: "set subject_cols \<subseteq> dom row \<longrightarrow>
      calculate_sgpa row =
        Inr (py_round2 (of_int (\<Sum>sub\<leftarrow>subject_cols. the (CREDITS sub) * the (row sub))
                        / of_int (\<Sum>sub\<leftarrow>subject_cols. the (CREDITS sub))))"
    by (simp add: calculate_sgpa_closed credits_total)
  have 2: "length subject_cols = 11" "distinct subject_cols"
    by (simp_all add: subject_cols_def)
  let ?P = "\<lambda>c. if c \<in> set subject_cols then Some (gp_of parse r c) else None"
  have dom: "set subject_cols \<subseteq> dom ?P" by (auto simp: dom_def)
  have s1: "(\<Sum>s\<leftarrow>subject_cols. the (CREDITS s) * the (?P s)) = (\<Sum>s\<leftarrow>subject_cols. the (CREDITS s) * gp_of parse r s)"
    by (rule arg_cong [where f = sum_list]) simp
  have 3: "\<exists>s. process_row parse r = Inr s \<and> set subject_cols \<subseteq> dom (GP s)
          \<and> calculate_sgpa (GP s) = Inr (SGPA s) \<and> CGPA s = SGPA s"
  proof (intro exI conjI)
    show "process_row parse r = Inr (scored_row parse r)"
      by (rule process_row_closed)
  qed (simp_all only: scored_row_sel calculate_sgpa_closed [OF dom] s1 dom)
  from 1 2 3 show ?thesis
    by (simp only: credits_total CREDITS_dom) simp
qed

theorem calculate_sgpa_formula_witness:
  "set subject_cols \<subseteq> dom sample_gp \<and> calculate_sgpa sample_gp = Inr 5
   \<and> set subject_cols \<subseteq> dom tie_gp \<and> calculate_sgpa tie_gp = Inr (62 / 100)"
proof -
  have d: "set subject_cols \<subseteq> dom sample_gp" "set subject_cols \<subseteq> dom tie_gp"
    by (simp_all add: subject_cols_def sample_gp_def tie_gp_def)
  have n: "(\<Sum>sub\<leftarrow>subject_cols. the (CREDITS sub) * the (sample_gp sub)) = 120"
    "(\<Sum>sub\<leftarrow>subject_cols. the (CREDITS sub) * the (tie_gp sub)) = 15"
    by (simp_all add: subject_cols_def CREDITS_def sample_gp_def tie_gp_def)
  from calculate_sgpa_formula [of sample_gp parse_85 asha] d(1)
  have 1: "calculate_sgpa sample_gp = Inr (py_round2 (of_int 120 / of_int 24))"
    unfolding n credits_total by blast
  from calculate_sgpa_formula [of tie_gp parse_85 asha] d(2)
  have 2: "calculate_sgpa tie_gp = Inr (py_round2 (of_int 15 / of_int 24))"
    unfolding n credits_total by blast
  from 1 2 d show ?thesis
    by (simp add: py_round2_def round_half_even_def Let_def)
qed

section \<open>Pass or fail\<close>

lemma min_gp_lt_4_iff:
  "Min (set (map (gp_of parse r) subject_cols)) < 4 \<longleftrightarrow>
     (\<exists>sub\<in>set subject_cols. gp_of parse r sub = 0)"
proof -
  have ne: "set (map (gp_of parse r) subject_cols) \<noteq> {}"
    by (simp add: subject_cols_def)
  have "Min (set (map (gp_of parse r) subject_cols)) < 4 \<longleftrightarrow>
     (\<exists>a\<in>set (map (gp_of parse r) subject_cols). a < 4)"
    using ne by (simp only: Min_less_iff [OF finite_set ne])
  also have "\<dots> \<longleftrightarrow> (\<exists>sub\<in>set subject_cols. gp_of parse r sub < 4)"
    by auto
  also have "\<dots> \<longleftrightarrow> (\<exists>sub\<in>set subject_cols. gp_of parse r sub = 0)"
    by (simp only: gp_lt_4_iff_0)
  finally show ?thesis .
qed

text \<open>
  Claim C3. On every row of the pipeline the result is FAIL when the least grade point
  over the eleven subjects is below 4 and PASS otherwise; that is the case exactly when
  some subject has grade point 0. The SGPA plays no part: a row whose grade points are
  all at least 4 is PASS.
\<close>

theorem result_pass_fail:
  "\<exists>s. process_row parse r = Inr s
     \<and> set subject_cols \<subseteq> dom (GP s)
     \<and> pass_fail (GP s) = Inr (Result s)
     \<and> Result s = (if Min ((\<lambda>sub. the (GP s sub)) ` set subject_cols) < 4
                   then ''FAIL'' else ''PASS'')
     \<and> (Result s = ''FAIL'' \<longleftrightarrow> (\<exists>sub\<in>set subject_cols. GP s sub = Some 0))
     \<and> ((\<forall>sub\<in>set subject_cols. \<exists>g. GP s sub = Some g \<and> 4 \<le> g) \<longrightarrow> Result s = ''PASS'')"
proof -
  let ?P = "\<lambda>c. if c \<in> set subject_cols then Some (gp_of parse r c) else None"
  let ?M = "Min (set (map (gp_of parse r) subject_cols))"
  let ?res = "if ?M \<ge> 4 then ''PASS'' else ''FAIL''"
  define s where "s = scored_row parse r"
  have run: "process_row parse r = Inr s"
    unfolding s_def by (rule process_row_closed)
  have gp: "GP s = ?P" and res: "Result s = ?res"
    by (simp_all only: s_def scored_row_sel)
  have dom: "set subject_cols \<subseteq> dom (GP s)"
    unfolding gp by (auto simp: dom_def)
  have img: "(\<lambda>sub. the (GP s sub)) ` set subject_cols = set (map (gp_of parse r) subject_cols)"
    unfolding gp by (auto simp: image_iff)
  have pf: "pass_fail (GP s) = Inr (Result s)"
  proof -
    have "map (\<lambda>s. the (?P s)) subject_cols = map (gp_of parse r) subject_cols"
      by simp
    moreover have "set subject_cols \<subseteq> dom ?P"
      using dom unfolding gp .
    ultimately have "pass_fail ?P = Inr ?res"
      by (simp only: pass_fail_closed)
    then show ?thesis
      unfolding res gp .
  qed
  have r1: "Result s = (if Min ((\<lambda>sub. the (GP s sub)) ` set subject_cols) < 4
                   then ''FAIL'' else ''PASS'')"
    unfolding img res by simp
  have r2: "Result s = ''FAIL'' \<longleftrightarrow> (\<exists>sub\<in>set subject_cols. GP s sub = Some 0)"
  proof -
    have "Result s = ''FAIL'' \<longleftrightarrow> ?M < 4"
      unfolding res by simp
    also have "\<dots> \<longleftrightarrow> (\<exists>sub\<in>set subject_cols. gp_of parse r sub = 0)"
      by (rule min_gp_lt_4_iff)
    also have "\<dots> \<longleftrightarrow> (\<exists>sub\<in>set subject_cols. GP s sub = Some 0)"
      unfolding gp by auto
    finally show ?thesis .
  qed
  have r3: "(\<forall>sub\<in>set subject_cols. \<exists>g. GP s sub = Some g \<and> 4 \<le> g) \<longrightarrow> Result s = ''PASS''"
  proof
    assume a: "\<forall>sub\<in>set subject_cols. \<exists>g. GP s sub = Some g \<and> 4 \<le> g"
    have "\<not> (\<exists>sub\<in>set subject_cols. GP s sub = Some 0)"
      using a by fastforce
    then have "Result s \<noteq> ''FAIL''" using r2 by blast
    then show "Result s = ''PASS''" unfolding res by (simp split: if_splits)
  qed
  from run dom pf r1 r2 r3 show ?thesis by blast
qed

lemma row_eval:
  "process_row parse r = Inr s \<Longrightarrow>
     SGPA s = py_round2 (of_int (\<Sum>s\<leftarrow>subject_cols. the (CREDITS s) * gp_of parse r s) / 24)
     \<and> GP s = (\<lambda>c. if c \<in> set subject_cols then Some (gp_of parse r c) else None)"
  unfolding process_row_closed by (auto simp: scored_row_sel)

theorem result_pass_fail_witness:
  "(\<exists>s. process_row parse_85 asha = Inr s \<and> Result s = ''PASS'' \<and> SGPA s = 5)
   \<and> (\<exists>s. process_row parse_85 chetan = Inr s \<and> Result s = ''FAIL'' \<and> SGPA s = 958 / 100
          \<and> GP s 171 = Some 0)"
proof -
  from result_pass_fail [of parse_85 asha] obtain s where s:
    "process_row parse_85 asha = Inr s"
    "(\<forall>sub\<in>set subject_cols. \<exists>g. GP s sub = Some g \<and> 4 \<le> g) \<longrightarrow> Result s = ''PASS''"
    by blast
  note e = row_eval [OF s(1)]
  have "\<forall>sub\<in>set subject_cols. \<exists>g. GP s sub = Some g \<and> 4 \<le> g"
    by (simp add: e subject_cols_def asha_def clean_cell_def to_numeric_def fillna_def
        grade_and_point.simps)
  with s(2) have "Result s = ''PASS''" by blast
  moreover have "SGPA s = 5"
    by (simp add: e subject_cols_def CREDITS_def asha_def clean_cell_def to_numeric_def fillna_def
        grade_and_point.simps py_round2_def round_half_even_def Let_def)
  ultimately have 1: "\<exists>s. process_row parse_85 asha = Inr s \<and> Result s = ''PASS'' \<and> SGPA s = 5"
    using s(1) by blast
  from result_pass_fail [of parse_85 chetan] obtain t where t:
    "process_row parse_85 chetan = Inr t"
    "Result t = ''FAIL'' \<longleftrightarrow> (\<exists>sub\<in>set subject_cols. GP t sub = Some 0)"
    by blast
  note f = row_eval [OF t(1)]
  have g: "GP t 171 = Some 0"
    by (simp add: f subject_cols_def chetan_def clean_cell_def to_numeric_def fillna_def
        parse_85_def grade_and_point.simps)
  moreover have "171 \<in> set subject_cols" by (simp add: subject_cols_def)
  ultimately have "Result t = ''FAIL''" using t(2) by blast
  moreover have "SGPA t = 958 / 100"
    by (simp add: f subject_cols_def CREDITS_def chetan_def clean_cell_def to_numeric_def
        fillna_def parse_85_def grade_and_point.simps py_round2_def round_half_even_def Let_def)
  ultimately have 2: "\<exists>s. process_row parse_85 chetan = Inr s \<and> Result s = ''FAIL''
      \<and> SGPA s = 958 / 100 \<and> GP s 171 = Some 0"
    using t(1) g by blast
  from 1 2 show ?thesis by blast
qed

section \<open>Dense rank\<close>

lemma process_rows_closed: "process_rows parse rs = Inr (map (scored_row parse) rs)"
  by (induction rs) (simp_all add: process_row_closed)

lemma process_df_closed: "process_df parse rs = Inr (add_rank (map (scored_row parse) rs))"
  by (simp add: process_df_def process_rows_closed)

lemma position_desc:
  "sorted_wrt (\<lambda>a b. b < a) ds \<Longrightarrow> x \<in> set ds \<Longrightarrow>
   position x ds = card {y \<in> set ds. x < (y::real)}"
proof (induction ds)
  case Nil
  then show ?case by simp
next
  case (Cons d ds)
  from Cons.prems(1) have below: "\<forall>y\<in>set ds. y < d" and srt: "sorted_wrt (\<lambda>a b. b < a) ds"
    by simp_all
  show ?case
  proof (cases "x = d")
    case True
    have "{y \<in> set (d # ds). d < y} = {}"
      using below by auto
    with True show ?thesis by simp
  next
    case False
    with Cons.prems(2) have xin: "x \<in> set ds" by simp
    with below have "x < d" by blast
    have "d \<notin> set ds" using below by auto
    then have "{y \<in> set (d # ds). x < y} = insert d {y \<in> set ds. x < y}"
      "d \<notin> {y \<in> set ds. x < y}"
      using \<open>x < d\<close> by auto
    then have "card {y \<in> set (d # ds). x < y} = Suc (card {y \<in> set ds. x < y})"
      by simp
    with False Cons.IH [OF srt xin] show ?thesis by simp
  qed
qed

lemma position_nth: "distinct ds \<Longrightarrow> j < length ds \<Longrightarrow> position (ds ! j) ds = j"
proof (induction ds arbitrary: j)
  case Nil
  then show ?case by simp
next
  case (Cons d ds)
  then show ?case by (cases j) auto
qed

lemma desc_levels:
  "sorted_wrt (\<lambda>a b. b < a) (rev (sort (remdups xs)))"
  "set (rev (sort (remdups xs))) = set xs"
  "distinct (rev (sort (remdups xs)))"
  "length (rev (sort (remdups xs))) = card (set xs)"
proof -
  show "sorted_wrt (\<lambda>a b. b < a) (rev (sort (remdups xs)))"
    by (simp add: sorted_wrt_rev strict_sorted_iff)
  show "set (rev (sort (remdups xs))) = set xs" by simp
  show "distinct (rev (sort (remdups xs)))" by simp
  have "length (rev (sort (remdups xs))) = length (remdups xs)" by simp
  also have "\<dots> = card (set xs)" by (simp add: length_remdups_card_conv)
  finally show "length (rev (sort (remdups xs))) = card (set xs)" .
qed

lemma dense_rank_length: "length (dense_rank xs) = length xs"
  by (simp add: dense_rank_def Let_def)

lemma dense_rank_nth:
  assumes "i < length xs"
  shows "dense_rank xs ! i = Suc (card {y \<in> set xs. xs ! i < y})"
proof -
  let ?ds = "rev (sort (remdups xs))"
  have "xs ! i \<in> set ?ds" using assms by (simp only: desc_levels(2) nth_mem)
  from position_desc [OF desc_levels(1) this]
  have "position (xs ! i) ?ds = card {y \<in> set xs. xs ! i < y}"
    by (simp only: desc_levels(2))
  then show ?thesis using assms by (simp add: dense_rank_def Let_def)
qed

lemma position_image:
  assumes "distinct ds"
  shows "(\<lambda>x. Suc (position x ds)) ` set ds = {1..length ds}"
proof (intro set_eqI iffI)
  fix k assume "k \<in> (\<lambda>x. Suc (position x ds)) ` set ds"
  then obtain x where "x \<in> set ds" "k = Suc (position x ds)" by blast
  then obtain j where "j < length ds" "x = ds ! j" by (auto simp: in_set_conv_nth)
  with position_nth [OF assms, of j] \<open>k = _\<close> show "k \<in> {1..length ds}"
    by simp
next
  fix k assume "k \<in> {1..length ds}"
  then obtain j where j: "k = Suc j" "j < length ds"
    by (cases k) auto
  then have "ds ! j \<in> set ds" by (simp only: nth_mem)
  moreover have "k = Suc (position (ds ! j) ds)"
    using position_nth [OF assms, of j] j by simp
  ultimately show "k \<in> (\<lambda>x. Suc (position x ds)) ` set ds" by blast
qed

lemma dense_rank_set: "set (dense_rank xs) = {1..card (set xs)}"
proof -
  let ?ds = "rev (sort (remdups xs))"
  have "set (dense_rank xs) = (\<lambda>x. Suc (position x ?ds)) ` set xs"
    by (simp add: dense_rank_def Let_def)
  also have "\<dots> = (\<lambda>x. Suc (position x ?ds)) ` set ?ds"
    by (simp only: desc_levels(2))
  also have "\<dots> = {1..length ?ds}"
    by (rule position_image [OF desc_levels(3)])
  also have "\<dots> = {1..card (set xs)}" by (simp only: desc_levels(4))
  finally show ?thesis .
qed

lemma ranked_sel:
  "Rank (scored.extend r (ranked.fields k)) = k"
  "SGPA (scored.extend r (ranked.fields k)) = SGPA r"
  "CGPA (scored.extend r (ranked.fields k)) = CGPA r"
  "Result (scored.extend r (ranked.fields k)) = Result r"
  "GP (scored.extend r (ranked.fields k)) = GP r"
  "Grade (scored.extend r (ranked.fields k)) = Grade r"
  "marks (scored.extend r (ranked.fields k)) = marks r"
  "Name (scored.extend r (ranked.fields k)) = Name r"
  "Roll_No (scored.extend r (ranked.fields k)) = Roll_No r"
  "cells (scored.extend r (ranked.fields k)) = cells r"
  by (simp_all add: scored.defs ranked.defs)

lemma add_rank_length: "length (add_rank df) = length df"
  by (simp add: add_rank_def dense_rank_length)

lemma add_rank_nth:
  "i < length df \<Longrightarrow>
   add_rank df ! i = scored.extend (df ! i) (ranked.fields (dense_rank (map SGPA df) ! i))"
  by (simp add: add_rank_def dense_rank_length)

lemma add_rank_Rank: "map Rank (add_rank df) = dense_rank (map SGPA df)"
  by (rule nth_equalityI) (simp_all add: add_rank_length dense_rank_length add_rank_nth ranked_sel)

lemma add_rank_SGPA: "map SGPA (add_rank df) = map SGPA df"
  by (rule nth_equalityI) (simp_all add: add_rank_length add_rank_nth ranked_sel)

lemma Rank_nth:
  assumes "i < length df"
  shows "Rank (add_rank df ! i) = Suc (card {v \<in> set (map SGPA df). SGPA (df ! i) < v})"
proof -
  have "Rank (add_rank df ! i) = dense_rank (map SGPA df) ! i"
    using assms by (simp add: add_rank_nth ranked_sel)
  also have "\<dots> = Suc (card {v \<in> set (map SGPA df). map SGPA df ! i < v})"
    using assms by (simp only: dense_rank_nth length_map)
  finally show ?thesis using assms by simp
qed

text \<open>
  Claim C4. The rank of a row is 1 plus the number of distinct SGPA values strictly above
  its own: rows with equal SGPA have equal rank, a row with the highest SGPA has rank 1,
  the next lower SGPA value gets the next integer, so the ranks are exactly 1 up to the
  number of distinct SGPA values; the rank is computed from the SGPA column alone.
\<close>

theorem rank_is_dense:
  "length (add_rank df) = length df
   \<and> (\<forall>i<length df.
         Rank (add_rank df ! i) = 1 + card {v \<in> set (map SGPA df). SGPA (df ! i) < v})
   \<and> (\<forall>i<length df. \<forall>j<length df.
         SGPA (df ! i) = SGPA (df ! j) \<longrightarrow> Rank (add_rank df ! i) = Rank (add_rank df ! j))
   \<and> (\<forall>i<length df.
         (\<forall>j<length df. SGPA (df ! j) \<le> SGPA (df ! i)) \<longrightarrow> Rank (add_rank df ! i) = 1)
   \<and> (\<forall>i<length df. \<forall>j<length df.
         SGPA (df ! j) < SGPA (df ! i)
         \<and> (\<forall>k<length df. \<not> (SGPA (df ! j) < SGPA (df ! k) \<and> SGPA (df ! k) < SGPA (df ! i)))
         \<longrightarrow> Rank (add_rank df ! j) = Rank (add_rank df ! i) + 1)
   \<and> set (map Rank (add_rank df)) = {1..card (set (map SGPA df))}
   \<and> (map SGPA df' = map SGPA df \<longrightarrow> map Rank (add_rank df') = map Rank (add_rank df))
   \<and> (\<exists>rows. process_rows parse raw = Inr rows \<and> process_df parse raw = Inr (add_rank rows))"
proof -
  let ?S = "set (map SGPA df)"
  let ?above = "\<lambda>i. {v \<in> ?S. SGPA (df ! i) < v}"
  have count: "\<And>i. i < length df \<Longrightarrow> Rank (add_rank df ! i) = 1 + card (?above i)"
    by (simp add: Rank_nth)
  have ties: "\<And>i j. i < length df \<Longrightarrow> j < length df \<Longrightarrow> SGPA (df ! i) = SGPA (df ! j)
      \<Longrightarrow> Rank (add_rank df ! i) = Rank (add_rank df ! j)"
    by (simp add: count)
  have top: "Rank (add_rank df ! i) = 1"
    if i: "i < length df" and mx: "\<forall>j<length df. SGPA (df ! j) \<le> SGPA (df ! i)" for i
  proof -
    have "?above i = {}"
    proof (rule ccontr)
      assume "?above i \<noteq> {}"
      then obtain v where "v \<in> ?S" "SGPA (df ! i) < v" by blast
      then obtain j where "j < length df" "v = SGPA (df ! j)"
        by (auto simp: in_set_conv_nth)
      with mx \<open>SGPA (df ! i) < v\<close> show False by fastforce
    qed
    then show ?thesis using count [OF i] by simp
  qed
  have succ: "Rank (add_rank df ! j) = Rank (add_rank df ! i) + 1"
    if i: "i < length df" and j: "j < length df" and lt: "SGPA (df ! j) < SGPA (df ! i)"
      and gap: "\<forall>k<length df. \<not> (SGPA (df ! j) < SGPA (df ! k) \<and> SGPA (df ! k) < SGPA (df ! i))"
    for i j
  proof -
    have mem: "SGPA (df ! i) \<in> ?S" using i by simp
    have "?above j = insert (SGPA (df ! i)) (?above i)"
    proof (intro set_eqI iffI)
      fix v assume v: "v \<in> ?above j"
      then obtain k where k: "k < length df" "v = SGPA (df ! k)"
        by (auto simp: in_set_conv_nth)
      with gap v have "\<not> v < SGPA (df ! i)" by auto
      with v show "v \<in> insert (SGPA (df ! i)) (?above i)" by auto
    next
      fix v assume "v \<in> insert (SGPA (df ! i)) (?above i)"
      with lt mem show "v \<in> ?above j" by auto
    qed
    moreover have "SGPA (df ! i) \<notin> ?above i" by simp
    moreover have "finite (?above i)" by simp
    ultimately have "card (?above j) = Suc (card (?above i))" by simp
    then show ?thesis using count [OF i] count [OF j] by simp
  qed
  have range: "set (map Rank (add_rank df)) = {1..card ?S}"
    by (simp only: add_rank_Rank dense_rank_set)
  have only: "map SGPA df' = map SGPA df \<longrightarrow> map Rank (add_rank df') = map Rank (add_rank df)"
    by (simp add: add_rank_Rank)
  have pipe: "\<exists>rows. process_rows parse raw = Inr rows \<and> process_df parse raw = Inr (add_rank rows)"
    by (simp add: process_rows_closed process_df_closed)
  from add_rank_length [of df] count ties top succ range only pipe show ?thesis
    by blast
qed

lemma cohort_sgpa: "map SGPA (map (scored_row parse_85) cohort) = [5, 10, 958 / 100, 5]"
  by (simp add: cohort_def scored_row_sel subject_cols_def CREDITS_def asha_def bina_def
      chetan_def clean_cell_def to_numeric_def fillna_def parse_85_def grade_and_point.simps
      py_round2_def round_half_even_def Let_def)

theorem rank_is_dense_witness:
  "\<exists>t. process_df parse_85 cohort = Inr t \<and> length t = 4
     \<and> Rank (t ! 0) = 3 \<and> Rank (t ! 1) = 1 \<and> Rank (t ! 2) = 2 \<and> Rank (t ! 3) = 3"
proof -
  let ?df = "map (scored_row parse_85) cohort"
  let ?xs = "map SGPA ?df"
  note th = rank_is_dense [of ?df ?df parse_85 cohort]
  have len: "length ?df = 4" by (simp add: cohort_def)
  have cnt: "Rank (add_rank ?df ! i) = 1 + card (set (filter (\<lambda>v. ?xs ! i < v) ?xs))"
    if "i < 4" for i
  proof -
    from that len have i: "i < length ?df" by simp
    from th i have "Rank (add_rank ?df ! i) = 1 + card {v \<in> set ?xs. SGPA (?df ! i) < v}"
      by blast
    moreover have "SGPA (?df ! i) = ?xs ! i"
      using i by (simp only: nth_map)
    ultimately show ?thesis by (simp only: set_filter)
  qed
  have "Rank (add_rank ?df ! 0) = 3" "Rank (add_rank ?df ! 1) = 1"
    "Rank (add_rank ?df ! 2) = 2" "Rank (add_rank ?df ! 3) = 3"
    using cnt [of 0] cnt [of 1] cnt [of 2] cnt [of 3]
    by (simp_all only: cohort_sgpa) simp_all
  moreover have "length (add_rank ?df) = 4" using th len by simp
  ultimately show ?thesis
    unfolding process_df_closed by blast
qed

section \<open>Overall topper list\<close>

lemma topper_sel:
  "Overall_Rank (ranked.extend r (topper.fields k)) = k"
  "Rank (ranked.extend r (topper.fields k)) = Rank r"
  "SGPA (ranked.extend r (topper.fields k)) = SGPA r"
  "Name (ranked.extend r (topper.fields k)) = Name r"
  "Roll_No (ranked.extend r (topper.fields k)) = Roll_No r"
  "ranked.truncate (ranked.extend r (topper.fields k)) = r"
  by (simp_all add: ranked.defs topper.defs)

lemma sort_key_of_extend:
  "sort_key_of (ranked.extend r (topper.fields k)) = sort_key_of r"
  by (simp add: sort_key_of_def topper_sel)

lemma topper_df_length: "length (topper_df df) = length df"
  by (simp add: topper_df_def Let_def)

lemma topper_df_nth:
  "i < length df \<Longrightarrow>
   topper_df df ! i = ranked.extend (sort_key sort_key_of df ! i) (topper.fields (i + 1))"
  by (simp add: topper_df_def Let_def)

lemma topper_df_Overall_Rank: "map Overall_Rank (topper_df df) = [1..<Suc (length df)]"
proof -
  have "map Overall_Rank (topper_df df) = map Suc [0..<length df]"
    by (rule nth_equalityI) (simp_all add: topper_df_length topper_df_nth topper_sel)
  also have "\<dots> = [Suc 0..<Suc (length df)]"
    by (rule map_Suc_upt)
  finally show ?thesis by (simp only: One_nat_def)
qed

lemma topper_df_keys:
  "map sort_key_of (topper_df df) = map sort_key_of (sort_key sort_key_of df)"
  by (rule nth_equalityI) (simp_all add: topper_df_length topper_df_nth sort_key_of_extend)

lemma topper_df_rows: "map ranked.truncate (topper_df df) = sort_key sort_key_of df"
  by (rule nth_equalityI) (simp_all add: topper_df_length topper_df_nth topper_sel)

lemma key_le_iff:
  "sort_key_of a \<le> sort_key_of b \<longleftrightarrow>
     SGPA b < SGPA a \<or> (SGPA a = SGPA b \<and> Name a \<le> Name b)"
  by (auto simp: sort_key_of_def less_eq_prod_def)

text \<open>
  Claim C6, as the code has it. The topper list holds the rows of the cohort, each once,
  in the order of SGPA descending and, within an SGPA, name ascending; its Overall Rank
  column is 1, 2, ..., N, so no two rows share an overall rank. The order of the keys is
  strict when no two rows agree in both SGPA and name.
\<close>

theorem topper_positional:
  "length (topper_df df) = length df
   \<and> map Overall_Rank (topper_df df) = [1..<Suc (length df)]
   \<and> distinct (map Overall_Rank (topper_df df))
   \<and> mset (map ranked.truncate (topper_df df)) = mset df
   \<and> (\<forall>i j. i < j \<and> j < length df \<longrightarrow>
         SGPA (topper_df df ! j) < SGPA (topper_df df ! i)
         \<or> (SGPA (topper_df df ! i) = SGPA (topper_df df ! j)
            \<and> Name (topper_df df ! i) \<le> Name (topper_df df ! j)))
   \<and> (distinct (map sort_key_of df) \<longrightarrow>
         sorted_wrt (<) (map sort_key_of (topper_df df)))"
proof -
  let ?t = "topper_df df"
  have ranks: "map Overall_Rank ?t = [1..<Suc (length df)]"
    by (rule topper_df_Overall_Rank)
  have dist: "distinct (map Overall_Rank ?t)"
    unfolding ranks by simp
  have perm: "mset (map ranked.truncate ?t) = mset df"
    by (simp add: topper_df_rows)
  have srt: "sorted (map sort_key_of ?t)"
    unfolding topper_df_keys by (rule sorted_sort_key)
  have ord: "SGPA (?t ! j) < SGPA (?t ! i)
         \<or> (SGPA (?t ! i) = SGPA (?t ! j) \<and> Name (?t ! i) \<le> Name (?t ! j))"
    if "i < j" "j < length df" for i j
  proof -
    from that have "map sort_key_of ?t ! i \<le> map sort_key_of ?t ! j"
      using srt by (simp add: sorted_iff_nth_mono_less topper_df_length)
    with that have "sort_key_of (?t ! i) \<le> sort_key_of (?t ! j)"
      by (simp add: topper_df_length)
    then show ?thesis by (simp only: key_le_iff)
  qed
  have strict: "sorted_wrt (<) (map sort_key_of ?t)" if d: "distinct (map sort_key_of df)"
  proof -
    have "mset (map sort_key_of ?t) = mset (map sort_key_of df)"
      unfolding topper_df_keys by simp
    with d have "distinct (map sort_key_of ?t)"
      by (metis mset_eq_imp_distinct_iff)
    with srt show ?thesis by (simp only: strict_sorted_iff)
  qed
  from topper_df_length [of df] ranks dist perm ord strict show ?thesis
    by blast
qed

lemma upt_small: "[1..<Suc 4] = [1, 2, 3, 4]" "[1..<Suc 2] = [1, 2]"
  by code_simp+

lemma list4: "length xs = 4 \<Longrightarrow> xs = [xs ! 0, xs ! 1, xs ! 2, xs ! 3]"
  by (rule nth_equalityI) (auto simp: nth_Cons' less_Suc_eq numeral_eq_Suc)

lemma list2: "length xs = 2 \<Longrightarrow> xs = [xs ! 0, xs ! 1]"
  by (rule nth_equalityI) (auto simp: nth_Cons' less_Suc_eq numeral_eq_Suc)

lemma ranked_key:
  "i < length df \<Longrightarrow> sort_key_of (add_rank df ! i) = (- SGPA (df ! i), Name (df ! i))"
  by (simp add: sort_key_of_def add_rank_nth ranked_sel)

lemma sample_sgpa:
  "SGPA (scored_row parse_85 asha) = 5"
  "SGPA (scored_row parse_85 bina) = 10"
  "SGPA (scored_row parse_85 chetan) = 958 / 100"
  "SGPA (scored_row parse_85 (asha\<lparr>Roll_No := r, Name := n\<rparr>)) = 5"
  "SGPA (scored_row parse_85 (asha\<lparr>Roll_No := r\<rparr>)) = 5"
  by (simp_all add: scored_row_sel subject_cols_def CREDITS_def asha_def bina_def
      chetan_def clean_cell_def to_numeric_def fillna_def parse_85_def grade_and_point.simps
      py_round2_def round_half_even_def Let_def)

lemma sample_name:
  "Name (scored_row parse_85 asha) = ''Asha''"
  "Name (scored_row parse_85 bina) = ''Bina''"
  "Name (scored_row parse_85 chetan) = ''Chetan''"
  "Name (scored_row parse_85 (asha\<lparr>Roll_No := r, Name := n\<rparr>)) = n"
  "Name (scored_row parse_85 (asha\<lparr>Roll_No := r\<rparr>)) = ''Asha''"
  "Roll_No (scored_row parse_85 asha) = 1"
  "Roll_No (scored_row parse_85 (asha\<lparr>Roll_No := r\<rparr>)) = r"
  by (simp_all add: scored_row_sel asha_def bina_def chetan_def)

theorem topper_positional_witness:
  "\<exists>t. process_df parse_85 cohort = Inr t
     \<and> map Overall_Rank (topper_df t) = [1, 2, 3, 4]
     \<and> map Name (topper_df t) = [''Bina'', ''Chetan'', ''Asha'', ''Dev'']
     \<and> distinct (map sort_key_of t)
     \<and> sorted_wrt (<) (map sort_key_of (topper_df t))"
proof -
  let ?df = "map (scored_row parse_85) cohort"
  let ?t = "add_rank ?df"
  define a b c d where "a = ?t ! 0" and "b = ?t ! 1" and "c = ?t ! 2" and "d = ?t ! 3"
  have len: "length ?df = 4" "length ?t = 4"
    by (simp_all add: add_rank_length cohort_def)
  have keys: "sort_key_of a = (- 5, ''Asha'')" "sort_key_of b = (- 10, ''Bina'')"
    "sort_key_of c = (- (958 / 100), ''Chetan'')" "sort_key_of d = (- 5, ''Dev'')"
    by (simp_all add: a_def b_def c_def d_def ranked_key len cohort_def sample_sgpa sample_name)
  have t: "?t = [a, b, c, d]"
    unfolding a_def b_def c_def d_def by (rule list4) (rule len)
  have srt: "sort_key sort_key_of ?t = [b, c, a, d]"
    unfolding t by (simp add: keys)
  have dst: "distinct (map sort_key_of ?t)"
    unfolding t by (simp add: keys)
  have names: "map Name (topper_df ?t) = [''Bina'', ''Chetan'', ''Asha'', ''Dev'']"
  proof -
    have "map Name (topper_df ?t) = map Name (sort_key sort_key_of ?t)"
      by (rule nth_equalityI) (simp_all add: topper_df_length topper_df_nth topper_sel)
    also have "\<dots> = map (\<lambda>r. snd (sort_key_of r)) [b, c, a, d]"
      unfolding srt by (simp add: sort_key_of_def)
    also have "\<dots> = [''Bina'', ''Chetan'', ''Asha'', ''Dev'']"
      by (simp add: keys)
    finally show ?thesis .
  qed
  note th = topper_positional [of ?t]
  have r: "map Overall_Rank (topper_df ?t) = [1, 2, 3, 4]"
    using th [THEN conjunct2, THEN conjunct1] by (simp only: len upt_small)
  have st: "sorted_wrt (<) (map sort_key_of (topper_df ?t))"
    by (rule th [THEN conjunct2, THEN conjunct2, THEN conjunct2, THEN conjunct2,
          THEN conjunct2, THEN mp, OF dst])
  show ?thesis
    by (rule exI [of _ ?t]) (simp only: process_df_closed r names dst st simp_thms)
qed

text \<open>
  Names are not unique. Two students with the same name and the same SGPA have equal
  sort keys, so the pair (SGPA, name) does not order them strictly; they still get the
  overall ranks 1 and 2, while their dense rank is 1 for both.
\<close>

theorem topper_key_tie:
  "process_df parse_85 twins = Inr twins_ranked
   \<and> length twins_ranked = 2
   \<and> twins_ranked ! 0 \<noteq> twins_ranked ! 1
   \<and> sort_key_of (twins_ranked ! 0) = sort_key_of (twins_ranked ! 1)
   \<and> \<not> sort_key_of (twins_ranked ! 0) < sort_key_of (twins_ranked ! 1)
   \<and> \<not> sort_key_of (twins_ranked ! 1) < sort_key_of (twins_ranked ! 0)
   \<and> map Overall_Rank (topper_df twins_ranked) = [1, 2]
   \<and> map Rank twins_ranked = [1, 1]"
proof -
  let ?df = "map (scored_row parse_85) twins"
  have tr: "twins_ranked = add_rank ?df"
    by (simp add: twins_ranked_def process_df_closed)
  have len: "length ?df = 2" "length twins_ranked = 2"
    by (simp_all add: tr add_rank_length twins_def)
  have keys: "sort_key_of (twins_ranked ! 0) = (- 5, ''Asha'')"
    "sort_key_of (twins_ranked ! 1) = (- 5, ''Asha'')"
    by (simp_all add: tr ranked_key len twins_def sample_sgpa sample_name)
  have "Roll_No (twins_ranked ! 0) = 1" "Roll_No (twins_ranked ! 1) = 5"
    by (simp_all add: tr add_rank_nth len ranked_sel twins_def sample_name)
  then have ne: "twins_ranked ! 0 \<noteq> twins_ranked ! 1"
    by auto
  have ranks: "map Overall_Rank (topper_df twins_ranked) = [1, 2]"
    by (simp only: topper_df_Overall_Rank len upt_small)
  have "map Rank twins_ranked = dense_rank [5, 5]"
    by (simp add: tr add_rank_Rank twins_def sample_sgpa)
  also have "\<dots> = [1, 1]"
    by (simp add: dense_rank_def)
  finally have dense: "map Rank twins_ranked = [1, 1]" .
  from tr len(2) ne keys ranks dense show ?thesis
    by (simp add: process_df_closed)
qed

section \<open>Rows do not influence each other\<close>

lemma scored_row_cells_cong:
  assumes "cells r = cells r'"
  shows "marks (scored_row parse r) = marks (scored_row parse r')"
    "Grade (scored_row parse r) = Grade (scored_row parse r')"
    "GP (scored_row parse r) = GP (scored_row parse r')"
    "SGPA (scored_row parse r) = SGPA (scored_row parse r')"
    "CGPA (scored_row parse r) = CGPA (scored_row parse r')"
    "Result (scored_row parse r) = Result (scored_row parse r')"
  by (simp_all only: scored_row_sel assms)

lemma process_df_nth:
  "i < length raw \<Longrightarrow>
   add_rank (map (scored_row parse) raw) ! i =
     scored.extend (scored_row parse (raw ! i))
       (ranked.fields (dense_rank (map SGPA (map (scored_row parse) raw)) ! i))"
  by (simp add: add_rank_nth)

text \<open>
  Claim C10. The per-row outputs of a student depend on that student's own marks only:
  for two input tables that agree on the subject cells of row i, the cleaned marks, the
  grades, the grade points, the SGPA, the CGPA and the result of row i are the same,
  whatever the other rows hold. The rank is the column that varies with the other rows.
\<close>

theorem per_row_noninterference:
  assumes "i < length t1" "i < length t2" "cells (t1 ! i) = cells (t2 ! i)"
  shows "\<exists>d1 d2. process_df parse t1 = Inr d1 \<and> process_df parse t2 = Inr d2
     \<and> length d1 = length t1 \<and> length d2 = length t2
     \<and> marks (d1 ! i) = marks (d2 ! i)
     \<and> Grade (d1 ! i) = Grade (d2 ! i)
     \<and> GP (d1 ! i) = GP (d2 ! i)
     \<and> SGPA (d1 ! i) = SGPA (d2 ! i)
     \<and> CGPA (d1 ! i) = CGPA (d2 ! i)
     \<and> Result (d1 ! i) = Result (d2 ! i)"
proof -
  let ?d1 = "add_rank (map (scored_row parse) t1)"
  let ?d2 = "add_rank (map (scored_row parse) t2)"
  note c = scored_row_cells_cong [OF assms(3), of parse]
  have "process_df parse t1 = Inr ?d1" "process_df parse t2 = Inr ?d2"
    by (rule process_df_closed)+
  moreover have "length ?d1 = length t1" "length ?d2 = length t2"
    by (simp_all add: add_rank_length)
  moreover have "marks (?d1 ! i) = marks (?d2 ! i)" "Grade (?d1 ! i) = Grade (?d2 ! i)"
    "GP (?d1 ! i) = GP (?d2 ! i)" "SGPA (?d1 ! i) = SGPA (?d2 ! i)"
    "CGPA (?d1 ! i) = CGPA (?d2 ! i)" "Result (?d1 ! i) = Result (?d2 ! i)"
    by (simp_all only: process_df_nth [OF assms(1)] process_df_nth [OF assms(2)] ranked_sel c)
  ultimately show ?thesis by blast
qed

theorem per_row_noninterference_witness:
  "\<exists>d1 d2. process_df parse_85 cohort = Inr d1 \<and> process_df parse_85 [asha] = Inr d2
     \<and> cells (cohort ! 0) = cells ([asha] ! 0)
     \<and> GP (d1 ! 0) = GP (d2 ! 0) \<and> SGPA (d1 ! 0) = SGPA (d2 ! 0)
     \<and> Result (d1 ! 0) = Result (d2 ! 0)
     \<and> Rank (d1 ! 0) = 3 \<and> Rank (d2 ! 0) = 1"
proof -
  have h: "0 < length cohort" "0 < length [asha]" "cells (cohort ! 0) = cells ([asha] ! 0)"
    by (simp_all add: cohort_def)
  from per_row_noninterference [OF h, of parse_85] obtain d1 d2 where d:
    "process_df parse_85 cohort = Inr d1" "process_df parse_85 [asha] = Inr d2"
    "GP (d1 ! 0) = GP (d2 ! 0)" "SGPA (d1 ! 0) = SGPA (d2 ! 0)"
    "Result (d1 ! 0) = Result (d2 ! 0)"
    by blast
  have e1: "d1 = add_rank (map (scored_row parse_85) cohort)"
    using d(1) by (simp only: process_df_closed sum.inject)
  have e2: "d2 = add_rank (map (scored_row parse_85) [asha])"
    using d(2) by (simp only: process_df_closed sum.inject)
  have "map Rank d1 = dense_rank [5, 10, 958 / 100, 5]"
    unfolding e1 add_rank_Rank by (simp only: cohort_sgpa)
  also have "\<dots> = [3, 1, 2, 3]"
    by (simp add: dense_rank_def)
  finally have "map Rank d1 ! 0 = 3" by simp
  moreover have "length d1 = 4" by (simp add: e1 add_rank_length cohort_def)
  ultimately have r1: "Rank (d1 ! 0) = 3" by simp
  have "map Rank d2 = dense_rank [5]"
    unfolding e2 add_rank_Rank by (simp add: sample_sgpa)
  also have "\<dots> = [1]"
    by (simp add: dense_rank_def)
  finally have "map Rank d2 ! 0 = 1" by simp
  moreover have "length d2 = 1" by (simp add: e2 add_rank_length)
  ultimately have r2: "Rank (d2 ! 0) = 1" by simp
  show ?thesis
    by (intro exI [of _ d1] exI [of _ d2] conjI d h(3) r1 r2)
qed

end
